theory Spec2Isabelle
  imports Main "HOL-Library.Word" "HOL-Library.Signed_Division"
begin

section \<open>Vehicles\<close>

text \<open>
  The classes \<open>Vehicle\<close>, \<open>Car\<close> and \<open>Truck\<close>. The fields \<open>ID\<close>, \<open>model\<close> and \<open>type\<close>
  belong to the base class, \<open>maxPassengers\<close> to a car and \<open>maxLoad\<close> to a truck. The
  fields of type \<open>int\<close> are 32-bit machine integers, read as signed by \<open>sint\<close>.
\<close>

datatype Vehicle =
    Car_object (ID: "32 word") (model: string) (type: string) (maxPassengers: "32 word")
  | Truck_object (ID: "32 word") (model: string) (type: string) (maxLoad: "32 word")

definition Car :: "32 word \<Rightarrow> string \<Rightarrow> Vehicle" where
  "Car idn m = Car_object idn m ''Car'' 4"

definition Truck :: "32 word \<Rightarrow> string \<Rightarrow> Vehicle" where
  "Truck idn m = Truck_object idn m ''Truck'' 4000"

section \<open>The warehouse\<close>

text \<open>
  A slot of the storage vector holds a \<open>Vehicle *\<close>: \<open>None\<close> is \<open>nullptr\<close>, \<open>Some p\<close> a
  pointer to the object \<open>p\<close>. The macro \<open>CAPACITY\<close> is fixed when the program is compiled;
  it is a parameter of every operation here. The counters are C++ \<open>int\<close>s; they are
  modelled as integers, and \<open>wf_no_overflow\<close> below shows that on a well-formed
  warehouse no operation leaves the range of a 32-bit \<open>int\<close>, \<open>CAPACITY\<close> being a
  positive 32-bit \<open>int\<close> itself.
\<close>

record 'a Warehouse =
  vehicles :: "'a option list"
  count :: int
  front :: int
  rear :: int

text \<open>
  What a call does: it \<open>Returns\<close> a value, it stays \<open>Blocked\<close> in \<open>cond.wait\<close> because
  the predicate it waits for is false, or its behaviour is \<open>Undefined\<close> (an index outside
  the vector, a remainder by zero).
\<close>

datatype 'a outcome = Blocked | Undefined | Returns 'a

datatype ctor_error = Length_error | Bad_alloc

text \<open>
  What construction depends on outside the program: the vector's \<open>max_size()\<close>, fixed
  by the library (for libstdc++ on a 64-bit target \<open>PTRDIFF_MAX / sizeof(Vehicle *)\<close>,
  that is 1152921504606846975), and the number of slots the allocator can provide when
  the constructor runs.
\<close>

record allocator =
  max_size :: nat
  available :: nat

text \<open>
  The constructor: \<open>vehicles.resize(CAPACITY, nullptr)\<close> converts \<open>CAPACITY\<close> to the
  unsigned \<open>size_type\<close>. A negative value of a signed type becomes a size of at least
  half the range of \<open>size_type\<close>, beyond every \<open>max_size()\<close>, and \<open>resize\<close> throws
  \<open>std::length_error\<close>; so it does for a size above \<open>max_size()\<close>. A size the allocator
  cannot provide makes it throw \<open>std::bad_alloc\<close>. No storage is requested for size 0.
\<close>

definition Warehouse_ctor :: "allocator \<Rightarrow> int \<Rightarrow> ctor_error + 'a Warehouse" where
  "Warehouse_ctor a CAPACITY =
     (if CAPACITY < 0 then Inl Length_error
      else if int (max_size a) < CAPACITY then Inl Length_error
      else if int (available a) < CAPACITY then Inl Bad_alloc
      else Inr \<lparr>vehicles = replicate (nat CAPACITY) None, count = 0, front = 0, rear = 0\<rparr>)"

text \<open>
  \<open>cond.wait(locker, pred)\<close> returns, with the mutex held, only in a state where
  \<open>pred\<close> holds; the caller holds the mutex until \<open>locker.unlock()\<close>, so the rest of the
  operation is one atomic step on the state \<open>wait\<close> returned in.
\<close>

definition cond_wait :: "('s \<Rightarrow> bool) \<Rightarrow> 's \<Rightarrow> 's option" where
  "cond_wait pred s = (if pred s then Some s else None)"

definition in_range :: "'b list \<Rightarrow> int \<Rightarrow> bool" where
  "in_range xs i = (0 \<le> i \<and> i < int (length xs))"

definition addVehicle :: "int \<Rightarrow> 'a Warehouse \<Rightarrow> 'a option \<Rightarrow> 'a Warehouse outcome" where
  "addVehicle CAPACITY w vehicle =
     (case cond_wait (\<lambda>s. count s < CAPACITY) w of
        None \<Rightarrow> Blocked
      | Some s \<Rightarrow>
          if in_range (vehicles s) (rear s) \<and> CAPACITY \<noteq> 0
          then Returns (s\<lparr>vehicles := (vehicles s)[nat (rear s) := vehicle],
                          rear := (rear s + 1) smod CAPACITY,
                          count := count s + 1\<rparr>)
          else Undefined)"

definition removeVehicle :: "int \<Rightarrow> 'a Warehouse \<Rightarrow> ('a Warehouse \<times> 'a option) outcome" where
  "removeVehicle CAPACITY w =
     (case cond_wait (\<lambda>s. count s > 0) w of
        None \<Rightarrow> Blocked
      | Some s \<Rightarrow>
          if in_range (vehicles s) (front s) \<and> CAPACITY \<noteq> 0
          then Returns (s\<lparr>vehicles := (vehicles s)[nat (front s) := None],
                          front := (front s + 1) smod CAPACITY,
                          count := count s - 1\<rparr>,
                        vehicles s ! nat (front s))
          else Undefined)"

section \<open>Histories of completed calls\<close>

text \<open>
  The mutex makes the body of every call atomic, so what the threads do to the warehouse
  is a sequence of calls, each completed before the next one starts. \<open>run\<close> performs
  such a sequence and collects what the removals return, in order; it is \<open>Blocked\<close> as
  soon as a call of the sequence cannot complete in the state it is made in.
\<close>

datatype 'a call = Call_add "'a option" | Call_remove

fun run :: "int \<Rightarrow> 'a Warehouse \<Rightarrow> 'a call list \<Rightarrow> ('a Warehouse \<times> 'a option list) outcome" where
  "run CAPACITY w [] = Returns (w, [])"
| "run CAPACITY w (Call_add v # cs) =
     (case addVehicle CAPACITY w v of
        Blocked \<Rightarrow> Blocked
      | Undefined \<Rightarrow> Undefined
      | Returns w' \<Rightarrow> run CAPACITY w' cs)"
| "run CAPACITY w (Call_remove # cs) =
     (case removeVehicle CAPACITY w of
        Blocked \<Rightarrow> Blocked
      | Undefined \<Rightarrow> Undefined
      | Returns (w', v) \<Rightarrow>
          (case run CAPACITY w' cs of
             Blocked \<Rightarrow> Blocked
           | Undefined \<Rightarrow> Undefined
           | Returns (w'', vs) \<Rightarrow> Returns (w'', v # vs)))"

text \<open>The pointers passed to \<open>addVehicle\<close>, in the order of the calls.\<close>

fun inserted :: "'a call list \<Rightarrow> 'a option list" where
  "inserted [] = []"
| "inserted (Call_add v # cs) = v # inserted cs"
| "inserted (Call_remove # cs) = inserted cs"

text \<open>
  The representation invariant: the vector has \<open>CAPACITY\<close> slots, the indices are inside
  it, and \<open>rear\<close> is \<open>count\<close> slots after \<open>front\<close>, circularly. (With \<open>CAPACITY = 0\<close> the
  vector is empty and both indices stay 0.)
\<close>

definition wf :: "int \<Rightarrow> 'a Warehouse \<Rightarrow> bool" where
  "wf CAPACITY w =
     (int (length (vehicles w)) = CAPACITY \<and> 0 \<le> count w \<and> count w \<le> CAPACITY \<and>
      0 \<le> front w \<and> (front w < CAPACITY \<or> front w = 0) \<and>
      rear w = (front w + count w) mod CAPACITY)"

text \<open>The \<open>count\<close> slots from \<open>front\<close> on, circularly: what the warehouse holds.\<close>

definition queued :: "int \<Rightarrow> 'a Warehouse \<Rightarrow> 'a option list" where
  "queued CAPACITY w =
     map (\<lambda>i. vehicles w ! nat ((front w + int i) mod CAPACITY)) [0..<nat (count w)]"

section \<open>The producer and \<open>main\<close>\<close>

text \<open>
  The producer's loop never ends. It is run here for the draws of \<open>distr(eng)\<close> it is
  given, one per iteration, and yields the vehicles it constructs and passes to
  \<open>addVehicle\<close>, in order. \<open>id++\<close> is an increment of a 32-bit \<open>int\<close>; past \<open>INT_MAX\<close>
  C++ leaves it undefined, and the model wraps around as the machine does.
\<close>

fun producer :: "32 word \<Rightarrow> int list \<Rightarrow> Vehicle list" where
  "producer idn [] = []"
| "producer idn (d # ds) =
     (if d = 0 then Car idn ''SAAB'' else Truck idn ''VolvoTruck'') # producer (idn + 1) ds"

text \<open>
  \<open>main\<close> declares no parameters, so the command line is not read: the threads it
  starts are the producer with \<open>startID = 1001\<close> and the consumers \<open>1 .. numConsumers\<close>.
\<close>

datatype thread = Producer_thread "32 word" | Consumer_thread int

function spawn_consumers :: "int \<Rightarrow> int \<Rightarrow> thread list \<Rightarrow> thread list" where
  "spawn_consumers i numConsumers threads =
     (if i \<le> numConsumers
      then spawn_consumers (i + 1) numConsumers (threads @ [Consumer_thread i])
      else threads)"
  by pat_completeness auto
termination
  by (relation "measure (\<lambda>(i, n, ts). nat (n + 1 - i))") auto

declare spawn_consumers.simps [simp del]

definition main :: "string list \<Rightarrow> thread list" where
  "main argv =
     (let threads = [Producer_thread 1001]; numConsumers = 4
      in spawn_consumers 1 numConsumers threads)"

section \<open>The representation invariant\<close>

lemma smod_eq_mod: "0 \<le> a \<Longrightarrow> 0 < b \<Longrightarrow> a smod b = a mod (b::int)"
  by (simp add: smod_int_alt_def sgn_if)

text \<open>Construction fails beyond \<open>max_size()\<close> and beyond what the allocator provides.\<close>

lemma ctor_beyond_max_size:
  "Warehouse_ctor \<lparr>max_size = 1152921504606846975, available = n\<rparr> 1152921504606846976 =
     Inl Length_error"
  by (simp add: Warehouse_ctor_def)

lemma ctor_out_of_memory:
  "Warehouse_ctor \<lparr>max_size = 1152921504606846975, available = 1073741824\<rparr> 2147483647 =
     Inl Bad_alloc"
  by (simp add: Warehouse_ctor_def)

lemma ctor_succeeds_iff:
  "(\<exists>w. (Warehouse_ctor a CAPACITY :: ctor_error + 'a Warehouse) = Inr w) \<longleftrightarrow>
   0 \<le> CAPACITY \<and> CAPACITY \<le> int (max_size a) \<and> CAPACITY \<le> int (available a)"
  by (auto simp: Warehouse_ctor_def)

lemma wf_ctor: "Warehouse_ctor a CAPACITY = Inr w \<Longrightarrow> wf CAPACITY w"
  by (auto simp: Warehouse_ctor_def wf_def split: if_splits)

lemma queued_ctor: "Warehouse_ctor a CAPACITY = Inr w \<Longrightarrow> queued CAPACITY w = []"
  by (auto simp: Warehouse_ctor_def queued_def split: if_splits)

lemma addVehicle_wf:
  assumes "wf CAPACITY w" "count w < CAPACITY"
  shows "addVehicle CAPACITY w v =
     Returns (w\<lparr>vehicles := (vehicles w)[nat (rear w) := v],
               rear := (rear w + 1) mod CAPACITY, count := count w + 1\<rparr>)"
proof -
  from assms have pos: "0 < CAPACITY" by (simp add: wf_def)
  with assms(1) have r: "0 \<le> rear w" "rear w < CAPACITY" by (simp_all add: wf_def)
  from assms(1) have len: "int (length (vehicles w)) = CAPACITY" by (simp add: wf_def)
  show ?thesis
    using pos r len assms(2)
    by (simp add: addVehicle_def cond_wait_def in_range_def smod_eq_mod)
qed

lemma removeVehicle_wf:
  assumes "wf CAPACITY w" "0 < count w"
  shows "removeVehicle CAPACITY w =
     Returns (w\<lparr>vehicles := (vehicles w)[nat (front w) := None],
               front := (front w + 1) mod CAPACITY, count := count w - 1\<rparr>,
              vehicles w ! nat (front w))"
proof -
  from assms have pos: "0 < CAPACITY" by (simp add: wf_def)
  with assms(1) have f: "0 \<le> front w" "front w < CAPACITY" by (auto simp add: wf_def)
  from assms(1) have len: "int (length (vehicles w)) = CAPACITY" by (simp add: wf_def)
  show ?thesis
    using pos f len assms(2)
    by (simp add: removeVehicle_def cond_wait_def in_range_def smod_eq_mod)
qed


lemma mod_slots_distinct:
  fixes f i j c :: int
  assumes "0 \<le> i" "i < j" "j - i < c"
  shows "(f + i) mod c \<noteq> (f + j) mod c"
proof
  assume "(f + i) mod c = (f + j) mod c"
  then have "c dvd (f + j) - (f + i)" by (metis mod_eq_dvd_iff)
  then have "c dvd j - i" by simp
  moreover from assms have "0 < j - i" by simp
  ultimately have "c \<le> j - i" by (rule zdvd_imp_le)
  with assms show False by simp
qed

lemma wf_addVehicle:
  assumes "wf CAPACITY w" "addVehicle CAPACITY w v = Returns w'"
  shows "wf CAPACITY w'"
proof -
  from assms(2) have lt: "count w < CAPACITY"
    by (auto simp: addVehicle_def cond_wait_def split: if_splits)
  from assms(2) addVehicle_wf [OF assms(1) lt, of v]
  have w': "w' = w\<lparr>vehicles := (vehicles w)[nat (rear w) := v],
               rear := (rear w + 1) mod CAPACITY, count := count w + 1\<rparr>" by simp
  from assms(1) have "rear w = (front w + count w) mod CAPACITY" by (simp add: wf_def)
  then have "(rear w + 1) mod CAPACITY = (front w + (count w + 1)) mod CAPACITY"
    by (simp add: mod_add_left_eq add.assoc)
  with assms(1) lt show ?thesis by (simp add: w' wf_def)
qed

lemma queued_addVehicle:
  assumes "wf CAPACITY w" "addVehicle CAPACITY w v = Returns w'"
  shows "queued CAPACITY w' = queued CAPACITY w @ [v]"
proof -
  from assms(2) have lt: "count w < CAPACITY"
    by (auto simp: addVehicle_def cond_wait_def split: if_splits)
  from assms(2) addVehicle_wf [OF assms(1) lt, of v]
  have w': "w' = w\<lparr>vehicles := (vehicles w)[nat (rear w) := v],
               rear := (rear w + 1) mod CAPACITY, count := count w + 1\<rparr>" by simp
  from assms(1) lt have pos: "0 < CAPACITY" and c0: "0 \<le> count w" by (simp_all add: wf_def)
  from assms(1) have rear: "rear w = (front w + count w) mod CAPACITY" by (simp add: wf_def)
  from assms(1) have len: "int (length (vehicles w)) = CAPACITY" by (simp add: wf_def)
  from pos rear have r: "0 \<le> rear w" "rear w < CAPACITY" by simp_all
  have n: "nat (count w + 1) = Suc (nat (count w))" using c0 by simp
  have old: "(vehicles w)[nat (rear w) := v] ! nat ((front w + int i) mod CAPACITY) =
             vehicles w ! nat ((front w + int i) mod CAPACITY)" if "i < nat (count w)" for i
  proof -
    from that lt c0 have "(front w + int i) mod CAPACITY \<noteq> (front w + count w) mod CAPACITY"
      by (intro mod_slots_distinct) simp_all
    moreover have "0 \<le> (front w + int i) mod CAPACITY" using pos by simp
    ultimately have "nat (rear w) \<noteq> nat ((front w + int i) mod CAPACITY)"
      using r rear by (simp add: eq_nat_nat_iff)
    then show ?thesis by simp
  qed
  have new: "(vehicles w)[nat (rear w) := v] ! nat ((front w + int (nat (count w))) mod CAPACITY) = v"
    using c0 rear r len by simp
  show ?thesis
    unfolding queued_def w' using old new by (simp add: n)
qed

lemma wf_removeVehicle:
  assumes "wf CAPACITY w" "removeVehicle CAPACITY w = Returns (w', v)"
  shows "wf CAPACITY w'"
proof -
  from assms(2) have gt: "0 < count w"
    by (auto simp: removeVehicle_def cond_wait_def split: if_splits)
  from assms(2) removeVehicle_wf [OF assms(1) gt]
  have w': "w' = w\<lparr>vehicles := (vehicles w)[nat (front w) := None],
               front := (front w + 1) mod CAPACITY, count := count w - 1\<rparr>" by simp
  from assms(1) gt have pos: "0 < CAPACITY" by (simp add: wf_def)
  from assms(1) have rear: "rear w = (front w + count w) mod CAPACITY" by (simp add: wf_def)
  have "((front w + 1) mod CAPACITY + (count w - 1)) mod CAPACITY =
        (front w + 1 + (count w - 1)) mod CAPACITY"
    by (rule mod_add_left_eq)
  with rear have "rear w = ((front w + 1) mod CAPACITY + (count w - 1)) mod CAPACITY" by simp
  with assms(1) gt pos show ?thesis by (simp add: w' wf_def)
qed

lemma queued_removeVehicle:
  assumes "wf CAPACITY w" "removeVehicle CAPACITY w = Returns (w', v)"
  shows "queued CAPACITY w = v # queued CAPACITY w'"
proof -
  from assms(2) have gt: "0 < count w"
    by (auto simp: removeVehicle_def cond_wait_def split: if_splits)
  from assms(2) removeVehicle_wf [OF assms(1) gt]
  have w': "w' = w\<lparr>vehicles := (vehicles w)[nat (front w) := None],
               front := (front w + 1) mod CAPACITY, count := count w - 1\<rparr>"
    and v: "v = vehicles w ! nat (front w)" by simp_all
  from assms(1) gt have pos: "0 < CAPACITY" and le: "count w \<le> CAPACITY" by (simp_all add: wf_def)
  from assms(1) pos have f: "0 \<le> front w" "front w < CAPACITY" by (auto simp: wf_def)
  have n: "nat (count w) = Suc (nat (count w - 1))" using gt by simp
  have hd: "vehicles w ! nat ((front w + int 0) mod CAPACITY) = v"
    using f v by simp
  have tl: "(vehicles w)[nat (front w) := None] !
              nat (((front w + 1) mod CAPACITY + int i) mod CAPACITY) =
            vehicles w ! nat ((front w + int (Suc i)) mod CAPACITY)" if "i < nat (count w - 1)" for i
  proof -
    have "((front w + 1) mod CAPACITY + int i) mod CAPACITY =
          (front w + 1 + int i) mod CAPACITY"
      by (rule mod_add_left_eq)
    also have "front w + 1 + int i = front w + int (Suc i)" by simp
    finally have eq: "((front w + 1) mod CAPACITY + int i) mod CAPACITY =
              (front w + int (Suc i)) mod CAPACITY" .
    from that le have "(front w + 0) mod CAPACITY \<noteq> (front w + int (Suc i)) mod CAPACITY"
      by (intro mod_slots_distinct) simp_all
    moreover have "0 \<le> (front w + int (Suc i)) mod CAPACITY" using pos by simp
    ultimately have "nat (front w) \<noteq> nat ((front w + int (Suc i)) mod CAPACITY)"
      using f by (simp add: eq_nat_nat_iff)
    then show ?thesis unfolding eq by simp
  qed
  have "queued CAPACITY w =
        vehicles w ! nat ((front w + int 0) mod CAPACITY) #
        map (\<lambda>i. vehicles w ! nat ((front w + int (Suc i)) mod CAPACITY)) [0..<nat (count w - 1)]"
    unfolding queued_def n by (simp only: upt_conv_Cons [of 0] map_Suc_upt [symmetric] list.map map_map o_def zero_less_Suc)
  also have "\<dots> = v # queued CAPACITY w'"
    unfolding queued_def w' using hd tl by simp
  finally show ?thesis .
qed


lemma length_queued: "0 \<le> count w \<Longrightarrow> int (length (queued CAPACITY w)) = count w"
  by (simp add: queued_def)

lemma run_wf:
  assumes "wf CAPACITY w" "run CAPACITY w cs = Returns (w', outs)"
  shows "wf CAPACITY w' \<and> queued CAPACITY w @ inserted cs = outs @ queued CAPACITY w'"
  using assms
proof (induction cs arbitrary: w outs)
  case Nil
  then show ?case by simp
next
  case (Cons c cs)
  show ?case
  proof (cases c)
    case (Call_add v)
    with Cons.prems(2) obtain w1 where
      a: "addVehicle CAPACITY w v = Returns w1" and r: "run CAPACITY w1 cs = Returns (w', outs)"
      by (auto split: outcome.splits)
    from wf_addVehicle [OF Cons.prems(1) a] have wf1: "wf CAPACITY w1" .
    from Cons.IH [OF wf1 r] queued_addVehicle [OF Cons.prems(1) a] Call_add
    show ?thesis by simp
  next
    case Call_remove
    with Cons.prems(2) obtain w1 v vs where
      a: "removeVehicle CAPACITY w = Returns (w1, v)" and
      r: "run CAPACITY w1 cs = Returns (w', vs)" and o: "outs = v # vs"
      by (auto split: outcome.splits prod.splits)
    from wf_removeVehicle [OF Cons.prems(1) a] have wf1: "wf CAPACITY w1" .
    from Cons.IH [OF wf1 r] queued_removeVehicle [OF Cons.prems(1) a] Call_remove o
    show ?thesis by simp
  qed
qed

lemma run_defined: "wf CAPACITY w \<Longrightarrow> run CAPACITY w cs \<noteq> Undefined"
proof (induction cs arbitrary: w)
  case Nil
  then show ?case by simp
next
  case (Cons c cs)
  show ?case
  proof (cases c)
    case (Call_add v)
    show ?thesis
    proof (cases "count w < CAPACITY")
      case True
      from addVehicle_wf [OF Cons.prems True, of v] wf_addVehicle [OF Cons.prems, of v]
        Cons.IH Call_add
      show ?thesis by (auto split: outcome.splits)
    next
      case False
      then show ?thesis using Call_add by (simp add: addVehicle_def cond_wait_def)
    qed
  next
    case Call_remove
    show ?thesis
    proof (cases "0 < count w")
      case True
      from removeVehicle_wf [OF Cons.prems True] wf_removeVehicle [OF Cons.prems]
        Cons.IH Call_remove
      show ?thesis by (auto split: outcome.splits)
    next
      case False
      then show ?thesis using Call_remove by (simp add: removeVehicle_def cond_wait_def)
    qed
  qed
qed

lemma wf_no_overflow:
  assumes "wf CAPACITY w" "0 < CAPACITY" "CAPACITY \<le> 2147483647"
  shows "rear w + 1 \<le> 2147483647 \<and> front w + 1 \<le> 2147483647 \<and>
         count w \<le> 2147483647 \<and> - 2147483648 \<le> count w - 1"
proof -
  from assms(1,2) have "rear w < CAPACITY" by (simp add: wf_def)
  moreover from assms(1,2) have "front w < CAPACITY" by (auto simp: wf_def)
  moreover from assms(1) have "0 \<le> count w" "count w \<le> CAPACITY" by (simp_all add: wf_def)
  ultimately show ?thesis using assms(3) by simp
qed

lemma full_needs_removal:
  assumes "\<not> count w < CAPACITY" "run CAPACITY w cs = Returns r" "Call_remove \<notin> set cs"
  shows "cs = []"
proof (cases cs)
  case Nil
  then show ?thesis .
next
  case (Cons c cs')
  with assms(3) obtain v where "c = Call_add v" by (cases c) auto
  with Cons assms(1,2) show ?thesis by (simp add: addVehicle_def cond_wait_def)
qed

lemma empty_needs_insertion:
  assumes "\<not> 0 < count w" "run CAPACITY w cs = Returns r" "\<forall>v. Call_add v \<notin> set cs"
  shows "cs = []"
proof (cases cs)
  case Nil
  then show ?thesis .
next
  case (Cons c cs')
  with assms(3) have "c = Call_remove" by (cases c) auto
  with Cons assms(1,2) show ?thesis by (simp add: removeVehicle_def cond_wait_def)
qed

text \<open>Histories compose, and the removals that empty a warehouse all complete.\<close>

lemma run_append:
  assumes "run CAPACITY w cs = Returns (w1, o1)" "run CAPACITY w1 ds = Returns (w2, o2)"
  shows "run CAPACITY w (cs @ ds) = Returns (w2, o1 @ o2)"
  using assms
proof (induction cs arbitrary: w o1)
  case Nil
  then show ?case by simp
next
  case (Cons c cs)
  show ?case
  proof (cases c)
    case (Call_add v)
    with Cons.prems(1) obtain w' where
      a: "addVehicle CAPACITY w v = Returns w'" and r: "run CAPACITY w' cs = Returns (w1, o1)"
      by (auto split: outcome.splits)
    from Cons.IH [OF r Cons.prems(2)] a Call_add show ?thesis by simp
  next
    case Call_remove
    with Cons.prems(1) obtain w' v vs where
      a: "removeVehicle CAPACITY w = Returns (w', v)" and
      r: "run CAPACITY w' cs = Returns (w1, vs)" and o: "o1 = v # vs"
      by (auto split: outcome.splits prod.splits)
    from Cons.IH [OF r Cons.prems(2)] a o Call_remove show ?thesis by simp
  qed
qed

lemma run_drain:
  assumes "wf CAPACITY w" "nat (count w) = n"
  shows "\<exists>w'. run CAPACITY w (replicate n Call_remove) = Returns (w', queued CAPACITY w) \<and>
               count w' = 0"
  using assms
proof (induction n arbitrary: w)
  case 0
  then have "count w = 0" by (simp add: wf_def)
  then show ?case by (simp add: queued_def)
next
  case (Suc n)
  then have gt: "0 < count w" by simp
  define w1 where "w1 = w\<lparr>vehicles := (vehicles w)[nat (front w) := None],
      front := (front w + 1) mod CAPACITY, count := count w - 1\<rparr>"
  from removeVehicle_wf [OF Suc.prems(1) gt]
  have r: "removeVehicle CAPACITY w = Returns (w1, vehicles w ! nat (front w))"
    by (simp add: w1_def)
  from wf_removeVehicle [OF Suc.prems(1) r] have wf1: "wf CAPACITY w1" .
  from Suc.prems(2) have "nat (count w1) = n" by (simp add: w1_def)
  from Suc.IH [OF wf1 this] obtain w' where
    d: "run CAPACITY w1 (replicate n Call_remove) = Returns (w', queued CAPACITY w1)"
    and z: "count w' = 0" by blast
  from queued_removeVehicle [OF Suc.prems(1) r] r d z show ?case by simp
qed

section \<open>The producer's identifiers\<close>

lemma length_producer: "length (producer s ds) = length ds"
  by (induction ds arbitrary: s) simp_all

lemma ID_Car [simp]: "ID (Car i m) = i"
  by (simp add: Car_def)

lemma ID_Truck [simp]: "ID (Truck i m) = i"
  by (simp add: Truck_def)

lemma producer_nth: "n < length ds \<Longrightarrow> ID (producer s ds ! n) = s + of_nat n"
proof (induction ds arbitrary: s n)
  case Nil
  then show ?case by simp
next
  case (Cons d ds)
  show ?case
  proof (cases n)
    case 0
    then show ?thesis by simp
  next
    case (Suc m)
    with Cons.prems have "m < length ds" by simp
    from Cons.IH [OF this, of "s + 1"] Suc show ?thesis by (simp add: add.assoc add.commute)
  qed
qed

text \<open>Incrementing below \<open>INT_MAX\<close> is incrementing the integer the word stands for.\<close>

lemma sint_no_overflow:
  fixes s :: "32 word"
  assumes "sint s + int n \<le> 2147483647"
  shows "sint (s + of_nat n) = sint s + int n"
proof -
  have "- 2147483648 \<le> sint s" using sint_ge [of s] by simp
  then have lo: "- (2 ^ 31) \<le> sint s + int n" by simp
  from assms have hi: "sint s + int n < 2 ^ 31" by simp
  have "s + of_nat n = word_of_int (sint s + int n)" by simp
  then have "sint (s + of_nat n) = signed_take_bit 31 (sint s + int n)"
    by (simp only: sint_sbintrunc') simp
  also have "\<dots> = sint s + int n"
    using lo hi by (simp add: signed_take_bit_int_eq_self)
  finally show ?thesis .
qed

section \<open>The claims\<close>

text \<open>
  C1. In every state a freshly constructed warehouse reaches through a sequence of
  completed \<open>addVehicle\<close> and \<open>removeVehicle\<close> calls, \<open>0 \<le> count \<le> CAPACITY\<close>.
\<close>

theorem count_bounded:
  assumes "Warehouse_ctor a CAPACITY = Inr w0" "run CAPACITY w0 cs = Returns (w, outs)"
  shows "0 \<le> count w \<and> count w \<le> CAPACITY"
proof -
  from run_wf [OF wf_ctor [OF assms(1)] assms(2)] have "wf CAPACITY w" by simp
  then show ?thesis by (simp add: wf_def)
qed

theorem count_bounded_witness:
  "Warehouse_ctor \<lparr>max_size = 1152921504606846975, available = 1024\<rparr> 2 =
     Inr \<lparr>vehicles = [None :: nat option, None], count = 0, front = 0, rear = 0\<rparr> \<and>
   run 2 \<lparr>vehicles = [None, None], count = 0, front = 0, rear = 0\<rparr>
     [Call_add (Some (1::nat)), Call_add (Some 2), Call_remove, Call_add (Some 3)] =
     Returns (\<lparr>vehicles = [Some 3, Some 2], count = 2, front = 1, rear = 1\<rparr>, [Some 1]) \<and>
   (0::int) \<le> count \<lparr>vehicles = [Some (3::nat), Some 2], count = 2, front = 1, rear = 1\<rparr> \<and>
   count \<lparr>vehicles = [Some (3::nat), Some 2], count = 2, front = 1, rear = 1\<rparr> \<le> 2"
proof -
  have c: "Warehouse_ctor \<lparr>max_size = 1152921504606846975, available = 1024\<rparr> 2 =
      Inr \<lparr>vehicles = [None :: nat option, None], count = 0, front = 0, rear = 0\<rparr>"
    by (simp add: Warehouse_ctor_def numeral_2_eq_2)
  have r: "run 2 \<lparr>vehicles = [None, None], count = 0, front = 0, rear = 0\<rparr>
     [Call_add (Some (1::nat)), Call_add (Some 2), Call_remove, Call_add (Some 3)] =
     Returns (\<lparr>vehicles = [Some 3, Some 2], count = 2, front = 1, rear = 1\<rparr>, [Some 1])"
    by (simp add: addVehicle_def removeVehicle_def cond_wait_def in_range_def smod_int_alt_def)
  have b: "0 \<le> count \<lparr>vehicles = [Some (3::nat), Some 2], count = 2, front = 1, rear = 1\<rparr> \<and>
     count \<lparr>vehicles = [Some (3::nat), Some 2], count = 2, front = 1, rear = 1\<rparr> \<le> 2"
    by (rule count_bounded [OF c r])
  from c r b show ?thesis by blast
qed

text \<open>
  C2. Removals return the items in the order they were inserted: in every sequence of
  completed calls on a freshly constructed warehouse, the \<open>k\<close>-th completed
  \<open>removeVehicle\<close> returns the \<open>k\<close>-th pointer passed to \<open>addVehicle\<close> (counting from 0
  here), and that insertion is part of the sequence.
\<close>

theorem fifo_order:
  assumes "Warehouse_ctor a CAPACITY = Inr w0" "run CAPACITY w0 cs = Returns (w, outs)"
    and "k < length outs"
  shows "k < length (inserted cs) \<and> outs ! k = inserted cs ! k"
proof -
  from run_wf [OF wf_ctor [OF assms(1)] assms(2)] queued_ctor [OF assms(1)]
  have eq: "inserted cs = outs @ queued CAPACITY w" by simp
  with assms(3) show ?thesis by (simp add: nth_append)
qed

theorem fifo_order_witness:
  "Warehouse_ctor \<lparr>max_size = 1152921504606846975, available = 1024\<rparr> 2 =
     Inr \<lparr>vehicles = [None :: nat option, None], count = 0, front = 0, rear = 0\<rparr> \<and>
   run 2 \<lparr>vehicles = [None, None], count = 0, front = 0, rear = 0\<rparr>
     [Call_add (Some (1::nat)), Call_add (Some 2), Call_remove, Call_add (Some 3), Call_remove] =
     Returns (\<lparr>vehicles = [Some 3, None], count = 1, front = 0, rear = 1\<rparr>, [Some 1, Some 2]) \<and>
   1 < length [Some (1::nat), Some 2] \<and>
   1 < length (inserted
     [Call_add (Some (1::nat)), Call_add (Some 2), Call_remove, Call_add (Some 3), Call_remove]) \<and>
   [Some (1::nat), Some 2] ! 1 =
     inserted [Call_add (Some 1), Call_add (Some 2), Call_remove, Call_add (Some 3), Call_remove] ! 1"
proof -
  have c: "Warehouse_ctor \<lparr>max_size = 1152921504606846975, available = 1024\<rparr> 2 =
      Inr \<lparr>vehicles = [None :: nat option, None], count = 0, front = 0, rear = 0\<rparr>"
    by (simp add: Warehouse_ctor_def numeral_2_eq_2)
  have r: "run 2 \<lparr>vehicles = [None, None], count = 0, front = 0, rear = 0\<rparr>
     [Call_add (Some (1::nat)), Call_add (Some 2), Call_remove, Call_add (Some 3), Call_remove] =
     Returns (\<lparr>vehicles = [Some 3, None], count = 1, front = 0, rear = 1\<rparr>, [Some 1, Some 2])"
    by (simp add: addVehicle_def removeVehicle_def cond_wait_def in_range_def smod_int_alt_def)
  have k: "1 < length [Some (1::nat), Some 2]" by simp
  from fifo_order [OF c r k] c r k show ?thesis by blast
qed

text \<open>
  C3. No loss, no duplication: in every sequence of completed calls on a freshly
  constructed warehouse, the pointers inserted are, in order, the pointers the removals
  have returned followed by the \<open>count\<close> pointers still stored; so the number inserted is
  the number returned plus \<open>count\<close>. The \<open>count\<close> removals the consumers make next all
  complete, and then the warehouse is empty and the removals have returned exactly the
  inserted pointers, each once: \<open>N\<close> inserted, \<open>N\<close> returned.
\<close>

theorem no_loss_no_duplication:
  assumes "Warehouse_ctor a CAPACITY = Inr w0" "run CAPACITY w0 cs = Returns (w, outs)"
  shows "inserted cs = outs @ queued CAPACITY w \<and>
         int (length (inserted cs)) = int (length outs) + count w \<and>
         (\<exists>w'. run CAPACITY w0 (cs @ replicate (nat (count w)) Call_remove) =
                 Returns (w', inserted cs) \<and> count w' = 0)"
proof -
  from run_wf [OF wf_ctor [OF assms(1)] assms(2)] queued_ctor [OF assms(1)]
  have inv: "wf CAPACITY w" and eq: "inserted cs = outs @ queued CAPACITY w" by simp_all
  from inv have "0 \<le> count w" by (simp add: wf_def)
  from length_queued [OF this, of CAPACITY] eq
  have tot: "int (length (inserted cs)) = int (length outs) + count w" by simp
  from run_drain [OF inv refl] obtain w' where
    d: "run CAPACITY w (replicate (nat (count w)) Call_remove) = Returns (w', queued CAPACITY w)"
    and z: "count w' = 0" by blast
  from run_append [OF assms(2) d] eq
  have "run CAPACITY w0 (cs @ replicate (nat (count w)) Call_remove) = Returns (w', inserted cs)"
    by simp
  with eq tot z show ?thesis by blast
qed

theorem no_loss_no_duplication_witness:
  "Warehouse_ctor \<lparr>max_size = 1152921504606846975, available = 1024\<rparr> 2 =
     Inr \<lparr>vehicles = [None :: nat option, None], count = 0, front = 0, rear = 0\<rparr> \<and>
   run 2 \<lparr>vehicles = [None, None], count = 0, front = 0, rear = 0\<rparr>
     [Call_add (Some (1::nat)), Call_add (Some 2), Call_remove, Call_add (Some 3)] =
     Returns (\<lparr>vehicles = [Some 3, Some 2], count = 2, front = 1, rear = 1\<rparr>, [Some 1]) \<and>
   inserted [Call_add (Some (1::nat)), Call_add (Some 2), Call_remove, Call_add (Some 3)] =
     [Some 1] @ queued 2 \<lparr>vehicles = [Some 3, Some 2], count = 2, front = 1, rear = 1\<rparr> \<and>
   (\<exists>w'. run 2 \<lparr>vehicles = [None, None], count = 0, front = 0, rear = 0\<rparr>
       ([Call_add (Some (1::nat)), Call_add (Some 2), Call_remove, Call_add (Some 3)] @
        [Call_remove, Call_remove]) =
       Returns (w', [Some 1, Some 2, Some 3]) \<and> count w' = 0)"
proof -
  have c: "Warehouse_ctor \<lparr>max_size = 1152921504606846975, available = 1024\<rparr> 2 =
      Inr \<lparr>vehicles = [None :: nat option, None], count = 0, front = 0, rear = 0\<rparr>"
    by (simp add: Warehouse_ctor_def numeral_2_eq_2)
  have r: "run 2 \<lparr>vehicles = [None, None], count = 0, front = 0, rear = 0\<rparr>
     [Call_add (Some (1::nat)), Call_add (Some 2), Call_remove, Call_add (Some 3)] =
     Returns (\<lparr>vehicles = [Some 3, Some 2], count = 2, front = 1, rear = 1\<rparr>, [Some 1])"
    by (simp add: addVehicle_def removeVehicle_def cond_wait_def in_range_def smod_int_alt_def)
  have i: "inserted [Call_add (Some (1::nat)), Call_add (Some 2), Call_remove, Call_add (Some 3)] =
     [Some 1, Some 2, Some 3]" by simp
  have n: "replicate (nat (count \<lparr>vehicles = [Some (3::nat), Some 2], count = 2, front = 1, rear = 1\<rparr>))
     (Call_remove :: nat call) = [Call_remove, Call_remove]" by (simp add: numeral_2_eq_2)
  from no_loss_no_duplication [OF c r]
  have q: "inserted [Call_add (Some (1::nat)), Call_add (Some 2), Call_remove, Call_add (Some 3)] =
     [Some 1] @ queued 2 \<lparr>vehicles = [Some 3, Some 2], count = 2, front = 1, rear = 1\<rparr>"
    and d: "\<exists>w'. run 2 \<lparr>vehicles = [None, None], count = 0, front = 0, rear = 0\<rparr>
       ([Call_add (Some (1::nat)), Call_add (Some 2), Call_remove, Call_add (Some 3)] @
        [Call_remove, Call_remove]) =
       Returns (w', [Some 1, Some 2, Some 3]) \<and> count w' = 0"
    unfolding n i by blast+
  from c r q d show ?thesis by blast
qed

text \<open>
  C4. On a well-formed warehouse with \<open>count < CAPACITY\<close>, \<open>addVehicle(vehicle)\<close>
  completes; it stores \<open>vehicle\<close> in the slot at index \<open>rear\<close>, leaves every other slot as
  it was, advances \<open>rear\<close> to \<open>(rear + 1) mod CAPACITY\<close>, increments \<open>count\<close> by one and
  leaves \<open>front\<close> unchanged.
\<close>

theorem addVehicle_effect:
  assumes "wf CAPACITY w" "count w < CAPACITY"
  shows "\<exists>w'. addVehicle CAPACITY w v = Returns w' \<and>
           vehicles w' ! nat (rear w) = v \<and>
           (\<forall>i. i \<noteq> nat (rear w) \<longrightarrow> vehicles w' ! i = vehicles w ! i) \<and>
           length (vehicles w') = length (vehicles w) \<and>
           rear w' = (rear w + 1) mod CAPACITY \<and>
           count w' = count w + 1 \<and>
           front w' = front w"
proof -
  from assms have pos: "0 < CAPACITY" by (simp add: wf_def)
  from assms(1) pos have "0 \<le> rear w" "rear w < int (length (vehicles w))"
    by (simp_all add: wf_def)
  then have "nat (rear w) < length (vehicles w)" by simp
  then show ?thesis
    unfolding addVehicle_wf [OF assms] by simp
qed

theorem addVehicle_effect_witness:
  "wf 2 \<lparr>vehicles = [None, Some (1::nat)], count = 1, front = 1, rear = 0\<rparr> \<and>
   count \<lparr>vehicles = [None, Some (1::nat)], count = 1, front = 1, rear = 0\<rparr> < 2 \<and>
   addVehicle 2 \<lparr>vehicles = [None, Some (1::nat)], count = 1, front = 1, rear = 0\<rparr> (Some 2) =
     Returns \<lparr>vehicles = [Some 2, Some 1], count = 2, front = 1, rear = 1\<rparr> \<and>
   (\<exists>w'. addVehicle 2 \<lparr>vehicles = [None, Some (1::nat)], count = 1, front = 1, rear = 0\<rparr>
            (Some 2) = Returns w' \<and>
         vehicles w' ! 0 = Some 2 \<and> vehicles w' ! 1 = Some 1 \<and> length (vehicles w') = 2 \<and>
         rear w' = 1 \<and> count w' = 2 \<and> front w' = 1)"
proof -
  have h1: "wf 2 \<lparr>vehicles = [None, Some (1::nat)], count = 1, front = 1, rear = 0\<rparr>"
    by (simp add: wf_def)
  have h2: "count \<lparr>vehicles = [None, Some (1::nat)], count = 1, front = 1, rear = 0\<rparr> < 2"
    by simp
  have e: "addVehicle 2 \<lparr>vehicles = [None, Some (1::nat)], count = 1, front = 1, rear = 0\<rparr>
      (Some 2) = Returns \<lparr>vehicles = [Some 2, Some 1], count = 2, front = 1, rear = 1\<rparr>"
    by (simp add: addVehicle_def removeVehicle_def cond_wait_def in_range_def smod_int_alt_def)
  from addVehicle_effect [OF h1 h2, of "Some 2"]
  have x: "\<exists>w'. addVehicle 2 \<lparr>vehicles = [None, Some (1::nat)], count = 1, front = 1, rear = 0\<rparr>
            (Some 2) = Returns w' \<and>
         vehicles w' ! 0 = Some 2 \<and> vehicles w' ! 1 = Some 1 \<and> length (vehicles w') = 2 \<and>
         rear w' = 1 \<and> count w' = 2 \<and> front w' = 1"
    by auto
  from h1 h2 e x show ?thesis by blast
qed

text \<open>
  C5. On a well-formed warehouse with \<open>count > 0\<close>, \<open>removeVehicle\<close> completes and returns
  the pointer in the slot at index \<open>front\<close>; it sets that slot to \<open>nullptr\<close>, leaves every
  other slot as it was, advances \<open>front\<close> to \<open>(front + 1) mod CAPACITY\<close>, decrements
  \<open>count\<close> by one and leaves \<open>rear\<close> unchanged.
\<close>

theorem removeVehicle_effect:
  assumes "wf CAPACITY w" "0 < count w"
  shows "\<exists>w'. removeVehicle CAPACITY w = Returns (w', vehicles w ! nat (front w)) \<and>
           vehicles w' ! nat (front w) = None \<and>
           (\<forall>i. i \<noteq> nat (front w) \<longrightarrow> vehicles w' ! i = vehicles w ! i) \<and>
           length (vehicles w') = length (vehicles w) \<and>
           front w' = (front w + 1) mod CAPACITY \<and>
           count w' = count w - 1 \<and>
           rear w' = rear w"
proof -
  from assms have pos: "0 < CAPACITY" by (simp add: wf_def)
  from assms(1) pos have "0 \<le> front w" "front w < int (length (vehicles w))"
    by (auto simp add: wf_def)
  then have "nat (front w) < length (vehicles w)" by simp
  then show ?thesis
    unfolding removeVehicle_wf [OF assms] by simp
qed

theorem removeVehicle_effect_witness:
  "wf 2 \<lparr>vehicles = [Some (2::nat), Some 1], count = 2, front = 1, rear = 1\<rparr> \<and>
   0 < count \<lparr>vehicles = [Some (2::nat), Some 1], count = 2, front = 1, rear = 1\<rparr> \<and>
   removeVehicle 2 \<lparr>vehicles = [Some (2::nat), Some 1], count = 2, front = 1, rear = 1\<rparr> =
     Returns (\<lparr>vehicles = [Some 2, None], count = 1, front = 0, rear = 1\<rparr>, Some 1) \<and>
   (\<exists>w'. removeVehicle 2 \<lparr>vehicles = [Some (2::nat), Some 1], count = 2, front = 1, rear = 1\<rparr> =
           Returns (w', Some 1) \<and>
         vehicles w' ! 1 = None \<and> vehicles w' ! 0 = Some 2 \<and> length (vehicles w') = 2 \<and>
         front w' = 0 \<and> count w' = 1 \<and> rear w' = 1)"
proof -
  have h1: "wf 2 \<lparr>vehicles = [Some (2::nat), Some 1], count = 2, front = 1, rear = 1\<rparr>"
    by (simp add: wf_def)
  have h2: "0 < count \<lparr>vehicles = [Some (2::nat), Some 1], count = 2, front = 1, rear = 1\<rparr>"
    by simp
  have e: "removeVehicle 2 \<lparr>vehicles = [Some (2::nat), Some 1], count = 2, front = 1, rear = 1\<rparr> =
     Returns (\<lparr>vehicles = [Some 2, None], count = 1, front = 0, rear = 1\<rparr>, Some 1)"
    by (simp add: addVehicle_def removeVehicle_def cond_wait_def in_range_def smod_int_alt_def)
  from removeVehicle_effect [OF h1 h2]
  have x: "\<exists>w'. removeVehicle 2
             \<lparr>vehicles = [Some (2::nat), Some 1], count = 2, front = 1, rear = 1\<rparr> =
           Returns (w', Some 1) \<and>
         vehicles w' ! 1 = None \<and> vehicles w' ! 0 = Some 2 \<and> length (vehicles w') = 2 \<and>
         front w' = 0 \<and> count w' = 1 \<and> rear w' = 1"
    by auto
  from h1 h2 e x show ?thesis by blast
qed

text \<open>
  C6. Blocking: \<open>addVehicle\<close> does not pass its wait in a state where \<open>count < CAPACITY\<close>
  is false, and \<open>removeVehicle\<close> does not pass its wait in a state where \<open>count > 0\<close> is
  false. So when \<open>addVehicle\<close> is called on a full warehouse (\<open>count = CAPACITY\<close>) and
  completes after the calls \<open>cs\<close> of other threads have completed, a \<open>removeVehicle\<close> is
  among \<open>cs\<close> and \<open>count < CAPACITY\<close> in the state the call completes in; when
  \<open>removeVehicle\<close> is called on an empty warehouse (\<open>count = 0\<close>) and completes after the
  calls \<open>cs'\<close>, an \<open>addVehicle\<close> is among \<open>cs'\<close> and \<open>count > 0\<close> in the state it
  completes in.
\<close>

theorem blocking:
  "(\<not> count wa < CAPACITY \<longrightarrow> addVehicle CAPACITY wa v = Blocked) \<and>
   (\<not> 0 < count wr \<longrightarrow> removeVehicle CAPACITY wr = Blocked) \<and>
   (count w_full = CAPACITY \<and> run CAPACITY w_full cs = Returns (w1, outs) \<and>
      addVehicle CAPACITY w1 v1 = Returns w2 \<longrightarrow>
        Call_remove \<in> set cs \<and> count w1 < CAPACITY) \<and>
   (count w_empty = 0 \<and> run CAPACITY w_empty cs' = Returns (w1', outs') \<and>
      removeVehicle CAPACITY w1' = Returns (w2', x) \<longrightarrow>
        (\<exists>y. Call_add y \<in> set cs') \<and> 0 < count w1')"
proof (intro conjI impI)
  assume "\<not> count wa < CAPACITY"
  then show "addVehicle CAPACITY wa v = Blocked" by (simp add: addVehicle_def cond_wait_def)
next
  assume "\<not> 0 < count wr"
  then show "removeVehicle CAPACITY wr = Blocked" by (simp add: removeVehicle_def cond_wait_def)
next
  assume a: "count w_full = CAPACITY \<and> run CAPACITY w_full cs = Returns (w1, outs) \<and>
      addVehicle CAPACITY w1 v1 = Returns w2"
  then show lt: "count w1 < CAPACITY"
    by (auto simp: addVehicle_def cond_wait_def split: if_splits)
  show "Call_remove \<in> set cs"
  proof (rule ccontr)
    assume "Call_remove \<notin> set cs"
    with a full_needs_removal [of w_full CAPACITY cs "(w1, outs)"] have "cs = []" by simp
    with a have "w1 = w_full" by simp
    with a lt show False by simp
  qed
next
  assume a: "count w_empty = 0 \<and> run CAPACITY w_empty cs' = Returns (w1', outs') \<and>
      removeVehicle CAPACITY w1' = Returns (w2', x)"
  then show gt: "0 < count w1'"
    by (auto simp: removeVehicle_def cond_wait_def split: if_splits)
  show "\<exists>y. Call_add y \<in> set cs'"
  proof (rule ccontr)
    assume "\<not> (\<exists>y. Call_add y \<in> set cs')"
    with a empty_needs_insertion [of w_empty CAPACITY cs' "(w1', outs')"] have "cs' = []" by simp
    with a have "w1' = w_empty" by simp
    with a gt show False by simp
  qed
qed

theorem blocking_witness:
  "\<not> count \<lparr>vehicles = [Some (1::nat)], count = 1, front = 0, rear = 0\<rparr> < 1 \<and>
   addVehicle 1 \<lparr>vehicles = [Some (1::nat)], count = 1, front = 0, rear = 0\<rparr> (Some 2) = Blocked \<and>
   \<not> 0 < count \<lparr>vehicles = [None :: nat option], count = 0, front = 0, rear = 0\<rparr> \<and>
   removeVehicle 1 \<lparr>vehicles = [None :: nat option], count = 0, front = 0, rear = 0\<rparr> = Blocked \<and>
   count \<lparr>vehicles = [Some (1::nat)], count = 1, front = 0, rear = 0\<rparr> = 1 \<and>
   run 1 \<lparr>vehicles = [Some (1::nat)], count = 1, front = 0, rear = 0\<rparr> [Call_remove] =
     Returns (\<lparr>vehicles = [None], count = 0, front = 0, rear = 0\<rparr>, [Some 1]) \<and>
   addVehicle 1 \<lparr>vehicles = [None :: nat option], count = 0, front = 0, rear = 0\<rparr> (Some 2) =
     Returns \<lparr>vehicles = [Some 2], count = 1, front = 0, rear = 0\<rparr> \<and>
   Call_remove \<in> set [Call_remove :: nat call] \<and>
   count \<lparr>vehicles = [None :: nat option], count = 0, front = 0, rear = 0\<rparr> < 1 \<and>
   count \<lparr>vehicles = [None :: nat option], count = 0, front = 0, rear = 0\<rparr> = 0 \<and>
   run 1 \<lparr>vehicles = [None], count = 0, front = 0, rear = 0\<rparr> [Call_add (Some (1::nat))] =
     Returns (\<lparr>vehicles = [Some 1], count = 1, front = 0, rear = 0\<rparr>, []) \<and>
   removeVehicle 1 \<lparr>vehicles = [Some (1::nat)], count = 1, front = 0, rear = 0\<rparr> =
     Returns (\<lparr>vehicles = [None], count = 0, front = 0, rear = 0\<rparr>, Some 1) \<and>
   (\<exists>y. Call_add y \<in> set [Call_add (Some (1::nat))]) \<and>
   0 < count \<lparr>vehicles = [Some (1::nat)], count = 1, front = 0, rear = 0\<rparr>"
proof -
  have h1: "\<not> count \<lparr>vehicles = [Some (1::nat)], count = 1, front = 0, rear = 0\<rparr> < 1"
    by simp
  have h2: "\<not> 0 < count \<lparr>vehicles = [None :: nat option], count = 0, front = 0, rear = 0\<rparr>"
    by simp
  have h3: "count \<lparr>vehicles = [Some (1::nat)], count = 1, front = 0, rear = 0\<rparr> = 1"
    by simp
  have h4: "run 1 \<lparr>vehicles = [Some (1::nat)], count = 1, front = 0, rear = 0\<rparr> [Call_remove] =
     Returns (\<lparr>vehicles = [None], count = 0, front = 0, rear = 0\<rparr>, [Some 1])"
    by (simp add: addVehicle_def removeVehicle_def cond_wait_def in_range_def smod_int_alt_def)
  have h5: "addVehicle 1 \<lparr>vehicles = [None :: nat option], count = 0, front = 0, rear = 0\<rparr>
      (Some 2) = Returns \<lparr>vehicles = [Some 2], count = 1, front = 0, rear = 0\<rparr>"
    by (simp add: addVehicle_def removeVehicle_def cond_wait_def in_range_def smod_int_alt_def)
  have h6: "count \<lparr>vehicles = [None :: nat option], count = 0, front = 0, rear = 0\<rparr> = 0"
    by simp
  have h7: "run 1 \<lparr>vehicles = [None], count = 0, front = 0, rear = 0\<rparr>
      [Call_add (Some (1::nat))] =
     Returns (\<lparr>vehicles = [Some 1], count = 1, front = 0, rear = 0\<rparr>, [])"
    by (simp add: addVehicle_def removeVehicle_def cond_wait_def in_range_def smod_int_alt_def)
  have h8: "removeVehicle 1 \<lparr>vehicles = [Some (1::nat)], count = 1, front = 0, rear = 0\<rparr> =
     Returns (\<lparr>vehicles = [None], count = 0, front = 0, rear = 0\<rparr>, Some 1)"
    by (simp add: addVehicle_def removeVehicle_def cond_wait_def in_range_def smod_int_alt_def)
  from blocking [of "\<lparr>vehicles = [Some (1::nat)], count = 1, front = 0, rear = 0\<rparr>" 1
      "Some 2" "\<lparr>vehicles = [None], count = 0, front = 0, rear = 0\<rparr>"
      "\<lparr>vehicles = [Some 1], count = 1, front = 0, rear = 0\<rparr>" "[Call_remove]"
      "\<lparr>vehicles = [None], count = 0, front = 0, rear = 0\<rparr>" "[Some 1]" "Some 2"
      "\<lparr>vehicles = [Some 2], count = 1, front = 0, rear = 0\<rparr>"
      "\<lparr>vehicles = [None], count = 0, front = 0, rear = 0\<rparr>" "[Call_add (Some 1)]"
      "\<lparr>vehicles = [Some 1], count = 1, front = 0, rear = 0\<rparr>" "[]"
      "\<lparr>vehicles = [None], count = 0, front = 0, rear = 0\<rparr>" "Some 1"]
    h1 h2 h3 h4 h5 h6 h7 h8
  show ?thesis by blast
qed

text \<open>
  C7 (amended). With a negative \<open>CAPACITY\<close> construction fails: \<open>resize\<close> throws
  \<open>std::length_error\<close> to the caller and no warehouse exists. No warehouse with a
  \<open>CAPACITY\<close> other than 0 is constructed in an unusable state: whenever construction
  succeeds and \<open>CAPACITY \<noteq> 0\<close>, the warehouse has \<open>CAPACITY\<close> slots and a first
  \<open>addVehicle\<close> followed by a \<open>removeVehicle\<close> both complete, the removal returning the
  pointer inserted. With \<open>CAPACITY = 0\<close> construction succeeds, whatever the allocator:
  the warehouse has no slot, and no call on it ever completes.
\<close>

theorem capacity_at_construction:
  "(CAPACITY < 0 \<longrightarrow>
      (Warehouse_ctor a CAPACITY :: ctor_error + 'a Warehouse) = Inl Length_error) \<and>
   (Warehouse_ctor a' CAPACITY' = Inr w \<and> CAPACITY' \<noteq> 0 \<longrightarrow>
      int (length (vehicles w)) = CAPACITY' \<and>
      (\<exists>w'. addVehicle CAPACITY' w (v :: 'a option) = Returns w') \<and>
      (\<exists>w''. run CAPACITY' w [Call_add v, Call_remove] = Returns (w'', [v]))) \<and>
   (\<exists>w0. (Warehouse_ctor a0 0 :: ctor_error + 'a Warehouse) = Inr w0 \<and> vehicles w0 = [] \<and>
      (\<forall>c cs. run 0 w0 (c # cs) = Blocked))"
proof (intro conjI impI)
  assume "CAPACITY < 0"
  then show "(Warehouse_ctor a CAPACITY :: ctor_error + 'a Warehouse) = Inl Length_error"
    by (simp add: Warehouse_ctor_def)
next
  assume h: "Warehouse_ctor a' CAPACITY' = Inr w \<and> CAPACITY' \<noteq> 0"
  then have c: "Warehouse_ctor a' CAPACITY' = Inr w" and pos: "0 < CAPACITY'"
    by (auto simp: Warehouse_ctor_def split: if_splits)
  from wf_ctor [OF c] have inv: "wf CAPACITY' w" .
  then show "int (length (vehicles w)) = CAPACITY'" by (simp add: wf_def)
  from c have "count w = 0" by (auto simp: Warehouse_ctor_def split: if_splits)
  with pos have lt: "count w < CAPACITY'" by simp
  define w1 where "w1 = w\<lparr>vehicles := (vehicles w)[nat (rear w) := v],
      rear := (rear w + 1) mod CAPACITY', count := count w + 1\<rparr>"
  from addVehicle_wf [OF inv lt, of v] have add: "addVehicle CAPACITY' w v = Returns w1"
    by (simp add: w1_def)
  then show "\<exists>w'. addVehicle CAPACITY' w v = Returns w'" by blast
  from wf_addVehicle [OF inv add] have inv1: "wf CAPACITY' w1" .
  from queued_addVehicle [OF inv add] queued_ctor [OF c]
  have q1: "queued CAPACITY' w1 = [v]" by simp
  from \<open>count w = 0\<close> have gt: "0 < count w1" by (simp add: w1_def)
  define w2 where "w2 = w1\<lparr>vehicles := (vehicles w1)[nat (front w1) := None],
      front := (front w1 + 1) mod CAPACITY', count := count w1 - 1\<rparr>"
  from removeVehicle_wf [OF inv1 gt]
  have rem: "removeVehicle CAPACITY' w1 = Returns (w2, vehicles w1 ! nat (front w1))"
    by (simp add: w2_def)
  from queued_removeVehicle [OF inv1 rem] q1 have "vehicles w1 ! nat (front w1) = v" by simp
  with add rem have "run CAPACITY' w [Call_add v, Call_remove] = Returns (w2, [v])" by simp
  then show "\<exists>w''. run CAPACITY' w [Call_add v, Call_remove] = Returns (w'', [v])" by blast
next
  have "run 0 \<lparr>vehicles = [], count = 0, front = 0, rear = 0\<rparr> (c # cs) = Blocked"
    for c :: "'a call" and cs
    by (cases c) (simp_all add: addVehicle_def removeVehicle_def cond_wait_def)
  then show "\<exists>w0. (Warehouse_ctor a0 0 :: ctor_error + 'a Warehouse) = Inr w0 \<and>
      vehicles w0 = [] \<and> (\<forall>c cs. run 0 w0 (c # cs) = Blocked)"
    by (simp add: Warehouse_ctor_def)
qed

theorem capacity_at_construction_witness:
  "(- 1 :: int) < 0 \<and>
   (Warehouse_ctor \<lparr>max_size = 1152921504606846975, available = 1024\<rparr> (- 1) ::
      ctor_error + Vehicle Warehouse) = Inl Length_error \<and>
   Warehouse_ctor \<lparr>max_size = 1152921504606846975, available = 1024\<rparr> 2 =
     Inr \<lparr>vehicles = [None :: Vehicle option, None], count = 0, front = 0, rear = 0\<rparr> \<and>
   (2 :: int) \<noteq> 0 \<and>
   int (length (vehicles
     \<lparr>vehicles = [None :: Vehicle option, None], count = 0, front = 0, rear = 0\<rparr>)) = 2 \<and>
   (\<exists>w'. addVehicle 2 \<lparr>vehicles = [None, None], count = 0, front = 0, rear = 0\<rparr>
      (Some (Car 1001 ''SAAB'')) = Returns w') \<and>
   (\<exists>w''. run 2 \<lparr>vehicles = [None, None], count = 0, front = 0, rear = 0\<rparr>
      [Call_add (Some (Car 1001 ''SAAB'')), Call_remove] =
      Returns (w'', [Some (Car 1001 ''SAAB'')])) \<and>
   (\<exists>w0. (Warehouse_ctor \<lparr>max_size = 1152921504606846975, available = 0\<rparr> 0 ::
      ctor_error + Vehicle Warehouse) = Inr w0 \<and> vehicles w0 = [] \<and>
      (\<forall>c cs. run 0 w0 (c # cs) = Blocked))"
proof -
  have h1: "(- 1 :: int) < 0" by simp
  have h2: "Warehouse_ctor \<lparr>max_size = 1152921504606846975, available = 1024\<rparr> 2 =
     Inr \<lparr>vehicles = [None :: Vehicle option, None], count = 0, front = 0, rear = 0\<rparr>"
    by (simp add: Warehouse_ctor_def numeral_2_eq_2)
  have h3: "(2 :: int) \<noteq> 0" by simp
  note t = capacity_at_construction [of "- 1"
      "\<lparr>max_size = 1152921504606846975, available = 1024\<rparr>"
      "\<lparr>max_size = 1152921504606846975, available = 1024\<rparr>" 2
      "\<lparr>vehicles = [None :: Vehicle option, None], count = 0, front = 0, rear = 0\<rparr>"
      "Some (Car 1001 ''SAAB'')"
      "\<lparr>max_size = 1152921504606846975, available = 0\<rparr>"]
  from t h1
  have n: "(Warehouse_ctor \<lparr>max_size = 1152921504606846975, available = 1024\<rparr> (- 1) ::
      ctor_error + Vehicle Warehouse) = Inl Length_error"
    by blast
  from t h2 h3
  have p: "int (length (vehicles
     \<lparr>vehicles = [None :: Vehicle option, None], count = 0, front = 0, rear = 0\<rparr>)) = 2"
    and q: "\<exists>w'. addVehicle 2 \<lparr>vehicles = [None, None], count = 0, front = 0, rear = 0\<rparr>
      (Some (Car 1001 ''SAAB'')) = Returns w'"
    and r: "\<exists>w''. run 2 \<lparr>vehicles = [None, None], count = 0, front = 0, rear = 0\<rparr>
      [Call_add (Some (Car 1001 ''SAAB'')), Call_remove] =
      Returns (w'', [Some (Car 1001 ''SAAB'')])"
    by blast+
  from t
  have z: "\<exists>w0. (Warehouse_ctor \<lparr>max_size = 1152921504606846975, available = 0\<rparr> 0 ::
      ctor_error + Vehicle Warehouse) = Inr w0 \<and> vehicles w0 = [] \<and>
      (\<forall>c cs. run 0 w0 (c # cs) = Blocked)"
    by blast
  from h1 n h2 h3 p q r z show ?thesis by blast
qed

text \<open>
  The statement as it was written, that a capacity \<open>\<le> 0\<close> is rejected or clamped and no
  unusable warehouse is ever constructed, fails at \<open>CAPACITY = 0\<close>: construction
  succeeds with an empty vector, and on the result both \<open>addVehicle\<close> and
  \<open>removeVehicle\<close> stay blocked.
\<close>

theorem zero_capacity_counterexample:
  "Warehouse_ctor \<lparr>max_size = 1152921504606846975, available = 1024\<rparr> 0 =
     Inr \<lparr>vehicles = [] :: Vehicle option list, count = 0, front = 0, rear = 0\<rparr> \<and>
   addVehicle 0 \<lparr>vehicles = [], count = 0, front = 0, rear = 0\<rparr>
     (Some (Car 1001 ''SAAB'')) = Blocked \<and>
   removeVehicle 0 \<lparr>vehicles = [] :: Vehicle option list, count = 0, front = 0, rear = 0\<rparr> = Blocked"
  by (simp add: Warehouse_ctor_def addVehicle_def removeVehicle_def cond_wait_def)

text \<open>
  C8. The number of consumers is not read from the command line: whatever the arguments,
  \<open>main\<close> starts the producer and the four consumers 1 to 4.
\<close>

theorem main_consumers:
  "main argv = [Producer_thread 1001, Consumer_thread 1, Consumer_thread 2,
                Consumer_thread 3, Consumer_thread 4]"
  by (simp add: main_def spawn_consumers.simps)

text \<open>
  C9. A newly constructed warehouse is empty: \<open>count\<close>, \<open>front\<close> and \<open>rear\<close> are 0, the
  vector has \<open>CAPACITY\<close> slots and each holds \<open>nullptr\<close>, and a \<open>removeVehicle\<close> called on
  it stays blocked.
\<close>

theorem fresh_warehouse:
  assumes "Warehouse_ctor a CAPACITY = Inr w"
  shows "count w = 0 \<and> front w = 0 \<and> rear w = 0 \<and>
         int (length (vehicles w)) = CAPACITY \<and>
         vehicles w = replicate (nat CAPACITY) None \<and>
         removeVehicle CAPACITY w = Blocked"
  using assms
  by (auto simp: Warehouse_ctor_def removeVehicle_def cond_wait_def split: if_splits)

theorem fresh_warehouse_witness:
  "Warehouse_ctor \<lparr>max_size = 1152921504606846975, available = 1024\<rparr> 8 =
     Inr \<lparr>vehicles = [None :: Vehicle option, None, None, None, None, None, None, None],
        count = 0, front = 0, rear = 0\<rparr> \<and>
   count \<lparr>vehicles = [None :: Vehicle option, None, None, None, None, None, None, None],
        count = 0, front = 0, rear = 0\<rparr> = 0 \<and>
   front \<lparr>vehicles = [None :: Vehicle option, None, None, None, None, None, None, None],
        count = 0, front = 0, rear = 0\<rparr> = 0 \<and>
   rear \<lparr>vehicles = [None :: Vehicle option, None, None, None, None, None, None, None],
        count = 0, front = 0, rear = 0\<rparr> = 0 \<and>
   int (length (vehicles \<lparr>vehicles = [None :: Vehicle option, None, None, None, None, None, None, None],
        count = 0, front = 0, rear = 0\<rparr>)) = 8 \<and>
   vehicles \<lparr>vehicles = [None :: Vehicle option, None, None, None, None, None, None, None],
        count = 0, front = 0, rear = 0\<rparr> = replicate (nat 8) None \<and>
   removeVehicle 8 \<lparr>vehicles = [None :: Vehicle option, None, None, None, None, None, None, None],
        count = 0, front = 0, rear = 0\<rparr> = Blocked"
proof -
  have c: "Warehouse_ctor \<lparr>max_size = 1152921504606846975, available = 1024\<rparr> 8 =
     Inr \<lparr>vehicles = [None :: Vehicle option, None, None, None, None, None, None, None],
        count = 0, front = 0, rear = 0\<rparr>"
  proof -
    have "replicate (nat 8) (None :: Vehicle option) =
        [None, None, None, None, None, None, None, None]"
      by (simp add: eval_nat_numeral)
    then show ?thesis by (simp add: Warehouse_ctor_def)
  qed
  have f: "count \<lparr>vehicles = [None :: Vehicle option, None, None, None, None, None, None, None],
        count = 0, front = 0, rear = 0\<rparr> = 0 \<and>
   front \<lparr>vehicles = [None :: Vehicle option, None, None, None, None, None, None, None],
        count = 0, front = 0, rear = 0\<rparr> = 0 \<and>
   rear \<lparr>vehicles = [None :: Vehicle option, None, None, None, None, None, None, None],
        count = 0, front = 0, rear = 0\<rparr> = 0 \<and>
   int (length (vehicles \<lparr>vehicles = [None :: Vehicle option, None, None, None, None, None, None, None],
        count = 0, front = 0, rear = 0\<rparr>)) = 8 \<and>
   vehicles \<lparr>vehicles = [None :: Vehicle option, None, None, None, None, None, None, None],
        count = 0, front = 0, rear = 0\<rparr> = replicate (nat 8) None \<and>
   removeVehicle 8 \<lparr>vehicles = [None :: Vehicle option, None, None, None, None, None, None, None],
        count = 0, front = 0, rear = 0\<rparr> = Blocked"
    by (rule fresh_warehouse [OF c])
  from c f show ?thesis by blast
qed

text \<open>
  C10 (amended). As long as the identifier still fits a 32-bit \<open>int\<close>, that is
  \<open>startID + n - 1 \<le> 2147483647\<close>, the \<open>n\<close>-th vehicle the producer constructs has the
  identifier \<open>startID + n - 1\<close>. With \<open>startID = 1001\<close> the first 2147482647 vehicles have
  pairwise distinct identifiers, each greater than 1000.
\<close>

theorem producer_ids:
  "(1 \<le> n \<and> n \<le> length ds \<and> sint startID + int n - 1 \<le> 2147483647 \<longrightarrow>
      sint (ID (producer startID ds ! (n - 1))) = sint startID + int n - 1) \<and>
   (length ds' \<le> 2147482647 \<longrightarrow>
      distinct (map ID (producer 1001 ds')) \<and>
      (\<forall>v \<in> set (producer 1001 ds'). 1000 < sint (ID v)))"
proof (intro conjI impI)
  assume a: "1 \<le> n \<and> n \<le> length ds \<and> sint startID + int n - 1 \<le> 2147483647"
  then have "n - 1 < length ds" and "sint startID + int (n - 1) \<le> 2147483647" by auto
  with producer_nth [of "n - 1" ds startID] sint_no_overflow [of startID "n - 1"]
  have "sint (ID (producer startID ds ! (n - 1))) = sint startID + int (n - 1)" by simp
  with a show "sint (ID (producer startID ds ! (n - 1))) = sint startID + int n - 1" by auto
next
  assume len: "length ds' \<le> 2147482647"
  have nth: "sint (ID (producer 1001 ds' ! i)) = 1001 + int i" if "i < length ds'" for i
  proof -
    from that len have "sint (1001 :: 32 word) + int i \<le> 2147483647" by simp
    from sint_no_overflow [OF this] producer_nth [OF that, of 1001] show ?thesis by simp
  qed
  show "distinct (map ID (producer 1001 ds'))"
  proof (subst distinct_conv_nth, intro allI impI)
    fix i j
    assume i: "i < length (map ID (producer 1001 ds'))"
      and j: "j < length (map ID (producer 1001 ds'))" and ne: "i \<noteq> j"
    from i j have i': "i < length ds'" and j': "j < length ds'" by (simp_all add: length_producer)
    show "map ID (producer 1001 ds') ! i \<noteq> map ID (producer 1001 ds') ! j"
    proof
      assume "map ID (producer 1001 ds') ! i = map ID (producer 1001 ds') ! j"
      with i' j' have "ID (producer 1001 ds' ! i) = ID (producer 1001 ds' ! j)"
        by (simp add: length_producer)
      then have "sint (ID (producer 1001 ds' ! i)) = sint (ID (producer 1001 ds' ! j))" by simp
      with nth [OF i'] nth [OF j'] ne show False by simp
    qed
  qed
  show "\<forall>v \<in> set (producer 1001 ds'). 1000 < sint (ID v)"
  proof
    fix v assume "v \<in> set (producer 1001 ds')"
    then obtain i where "i < length ds'" and "v = producer 1001 ds' ! i"
      by (auto simp: in_set_conv_nth length_producer)
    with nth [of i] show "1000 < sint (ID v)" by simp
  qed
qed

theorem producer_ids_witness:
  "(1::nat) \<le> 3 \<and> 3 \<le> length [0, 1, 0 :: int] \<and> sint (1001 :: 32 word) + int 3 - 1 \<le> 2147483647 \<and>
   sint (ID (producer 1001 [0, 1, 0] ! (3 - 1))) = sint (1001 :: 32 word) + int 3 - 1 \<and>
   length [0, 1, 0 :: int] \<le> 2147482647 \<and>
   distinct (map ID (producer 1001 [0, 1, 0])) \<and>
   list_all (\<lambda>v. 1000 < sint (ID v)) (producer 1001 [0, 1, 0]) \<and>
   producer 1001 [0, 1, 0] = [Car 1001 ''SAAB'', Truck 1002 ''VolvoTruck'', Car 1003 ''SAAB'']"
proof -
  have h1: "(1::nat) \<le> 3 \<and> 3 \<le> length [0, 1, 0 :: int] \<and>
            sint (1001 :: 32 word) + int 3 - 1 \<le> 2147483647" by simp
  have h2: "length [0, 1, 0 :: int] \<le> 2147482647" by simp
  from producer_ids [of 3 "[0, 1, 0]" 1001 "[0, 1, 0]"] h1 h2
  have c: "sint (ID (producer 1001 [0, 1, 0] ! (3 - 1))) = sint (1001 :: 32 word) + int 3 - 1"
    and d: "distinct (map ID (producer 1001 [0, 1, 0]))"
    and g: "\<forall>v \<in> set (producer 1001 [0, 1, 0]). 1000 < sint (ID v)" by blast+
  from g have g': "list_all (\<lambda>v. 1000 < sint (ID v)) (producer 1001 [0, 1, 0])"
    by (simp only: list_all_iff)
  have p: "producer 1001 [0, 1, 0] = [Car 1001 ''SAAB'', Truck 1002 ''VolvoTruck'', Car 1003 ''SAAB'']"
    by simp
  from h1 h2 c d g' p show ?thesis by blast
qed

text \<open>
  Without the bound the statement fails, since \<open>id++\<close> leaves the range of \<open>int\<close>: started
  at 2147483647 the second identifier is not 2147483648, and started at 1001 the
  identifier of vehicle number 2147482648 is not 2147483648 either; in the model, where
  the increment wraps around, it is not greater than 1000.
\<close>

theorem producer_ids_counterexample:
  "sint (ID (producer 2147483647 [0, 0] ! (2 - 1))) \<noteq> sint (2147483647 :: 32 word) + 2 - 1 \<and>
   sint (ID (producer 1001 (replicate 2147482648 0) ! (2147482648 - 1))) \<noteq>
     sint (1001 :: 32 word) + 2147482648 - 1 \<and>
   \<not> 1000 < sint (ID (producer 1001 (replicate 2147482648 0) ! (2147482648 - 1)))"
proof (intro conjI)
  show "sint (ID (producer 2147483647 [0, 0] ! (2 - 1))) \<noteq> sint (2147483647 :: 32 word) + 2 - 1"
    by simp
  have len: "(2147482647::nat) < length (replicate 2147482648 (0::int))"
    by (simp only: length_replicate)
  have idn: "ID (producer 1001 (replicate 2147482648 0) ! 2147482647) = 1001 + of_nat 2147482647"
    by (rule producer_nth [OF len])
  have n: "(2147482648::nat) - 1 = 2147482647" by simp
  have v: "sint (1001 + of_nat 2147482647 :: 32 word) = - 2147483648" by simp
  show "sint (ID (producer 1001 (replicate 2147482648 0) ! (2147482648 - 1))) \<noteq>
     sint (1001 :: 32 word) + 2147482648 - 1"
    unfolding n idn v by simp
  show "\<not> 1000 < sint (ID (producer 1001 (replicate 2147482648 0) ! (2147482648 - 1)))"
    unfolding n idn v by simp
qed

end
